theory Spec2Isabelle
  imports Main "HOL-Library.Multiset"
begin

section \<open>Values shared by the view and its drivers\<close>

text \<open>
  The ledger view (the Vue component whose script defines \<open>saveToLadger\<close> and
  \<open>updateDebitCreditValues\<close>) keeps its form in four refs and talks to three
  collaborators: the file-system plugin, the SQL plugin and the process clock.
  Amounts are whole minor units, so a JavaScript number is modelled as an \<open>int\<close>.
  A thrown value is a \<open>js_error\<close>: what a collaborator rejected with, or the
  \<open>TypeError\<close> of a method call on \<open>null\<close>.
\<close>

datatype js_value = JsString string | JsNumber int

datatype js_error = Rejected string | TypeError

datatype BaseDirectory = Home | AppData | Document | Desktop

datatype console_line = ConsoleLog "string list" | ConsoleError string js_error

text \<open>
  One object of the array that \<open>select * from transactions\<close> resolves to: the columns
  named by the INSERT statement plus the identity column the template uses as key.
\<close>

record transaction =
  row_id :: nat
  row_debitor :: string
  row_debit :: int
  row_credit :: int
  row_creditor :: string
  row_timestamp :: string

text \<open>
  The collaborators are parameters of the model. Each call either throws (\<open>Inl\<close>),
  leaving its store as it was, or resolves (\<open>Inr\<close>); the file store \<open>'fs\<close> and the
  relational store \<open>'db\<close> are separate. The file calls take the base directory of their
  options argument, \<open>mkdir\<close> also its \<open>recursive\<close> flag; the database calls take the
  handle, the statement and its parameters. \<open>date_now n\<close> is what
  \<open>new Date().toISOString()\<close> returns at the \<open>n\<close>-th reading of the clock.
\<close>

record ('fs, 'db) drivers =
  fs_exists :: "BaseDirectory \<Rightarrow> string \<Rightarrow> 'fs \<Rightarrow> js_error + bool"
  fs_mkdir :: "BaseDirectory \<Rightarrow> bool \<Rightarrow> string \<Rightarrow> 'fs \<Rightarrow> js_error + 'fs"
  fs_writeTextFile :: "BaseDirectory \<Rightarrow> string \<Rightarrow> string \<Rightarrow> 'fs \<Rightarrow> js_error + 'fs"
  db_load :: "string \<Rightarrow> 'db \<Rightarrow> js_error + 'db"
  db_execute :: "string \<Rightarrow> string \<Rightarrow> js_value list \<Rightarrow> 'db \<Rightarrow> js_error + 'db"
  db_select :: "string \<Rightarrow> string \<Rightarrow> js_value list \<Rightarrow> 'db \<Rightarrow> js_error + transaction list"
  date_now :: "nat \<Rightarrow> string"

text \<open>
  The component state: the refs \<open>debitor\<close>, \<open>debit\<close>, \<open>credit\<close>, \<open>creditor\<close>,
  \<open>db\<close> (\<open>None\<close> is \<open>null\<close>, \<open>Some p\<close> the handle loaded from path \<open>p\<close>) and
  \<open>transactions\<close>, together with the world the component acts on: the files under
  the base directories, the database, the number of clock readings so far and the
  console output.
\<close>

record ('fs, 'db) app =
  debitor :: string
  debit :: int
  credit :: int
  creditor :: string
  db :: "string option"
  transactions :: "transaction list"
  files :: 'fs
  store :: 'db
  clock :: nat
  console :: "console_line list"

section \<open>Rendering\<close>

text \<open>
  A whole number prints in decimal, with a leading minus sign when negative; this is how a
  template literal renders a JavaScript number and how Rust's \<open>{}\<close> renders an \<open>i64\<close>.
\<close>

definition digit_char :: "nat \<Rightarrow> char" where
  "digit_char d = ''0123456789'' ! d"

fun digits :: "nat \<Rightarrow> string" where
  "digits n = (if n < 10 then [digit_char n] else digits (n div 10) @ [digit_char (n mod 10)])"

declare digits.simps [simp del]

definition number_to_string :: "int \<Rightarrow> string" where
  "number_to_string n = (if n < 0 then CHR ''-'' # digits (nat (- n)) else digits (nat n))"

definition bool_to_string :: "bool \<Rightarrow> string" where
  "bool_to_string b = (if b then ''true'' else ''false'')"

definition newline :: string where
  "newline = [CHR 0x0A]"

section \<open>The form: updateDebitCreditValues\<close>

text \<open>
  The handler of both amount inputs. Its argument is the number the input holds; the
  model takes it as that number, where the browser hands over its decimal text and
  \<open>Math.abs\<close>, \<open>>\<close> and unary minus convert it (a text kept as it is in the
  else branch renders as the number does).
\<close>

definition updateDebitCreditValues :: "int \<Rightarrow> ('fs, 'db) app \<Rightarrow> ('fs, 'db) app" where
  "updateDebitCreditValues v s =
     (let s1 = s\<lparr>credit := \<bar>v\<bar>\<rparr>;
          s2 = s1\<lparr>debit := (if v > 0 then - v else v)\<rparr>
      in s2\<lparr>console := console s2 @ [ConsoleLog [number_to_string v]]\<rparr>)"

section \<open>The dual write: saveToLadger\<close>

definition dirPath :: string where
  "dirPath = ''Vault/Finance/Transactions''"

text \<open>\<open>replace(/[:.]/g, '-')\<close>: every colon and every dot becomes a hyphen.\<close>

definition replace_colon_dot :: "string \<Rightarrow> string" where
  "replace_colon_dot t = map (\<lambda>c. if c = CHR '':'' \<or> c = CHR ''.'' then CHR ''-'' else c) t"

definition entry_filename :: "string \<Rightarrow> string" where
  "entry_filename timestamp = ''ladger-entry-'' @ timestamp @ ''.md''"

definition entry_fullPath :: "string \<Rightarrow> string \<Rightarrow> string" where
  "entry_fullPath dir filename = dir @ ''/'' @ filename"

text \<open>The template literal of line 17, evaluated before the \<open>try\<close> block is entered.\<close>

definition entry_content :: "('fs, 'db) app \<Rightarrow> string" where
  "entry_content s =
     ''---'' @ newline
     @ ''debitor: '' @ debitor s @ newline
     @ ''debit: '' @ number_to_string (debit s) @ newline
     @ ''credit: '' @ number_to_string (credit s) @ newline
     @ ''creditor: '' @ creditor s @ newline
     @ ''---'' @ newline"

definition insert_sql :: string where
  "insert_sql =
     newline
     @ ''      INSERT INTO transactions (debitor, debit, credit, creditor, timestamp)'' @ newline
     @ ''      VALUES (?, ?, ?, ?, ?)'' @ newline
     @ ''    ''"

definition select_sql :: string where
  "select_sql = ''select * from transactions''"

text \<open>
  The \<open>try\<close> block, statement by statement. A step that throws yields \<open>Inl\<close> with the
  thrown value and the state reached so far; what was done before the throw stays done.
  One call is followed from its start to its end: no other handler of the page runs
  between its awaits.

  \<open>ensure_directory\<close> is the directory check with its two log lines and the
  conditional \<open>mkdir\<close>; \<open>write_entry\<close> is \<open>writeTextFile\<close> with the log line after
  it; \<open>insert_transaction\<close> is the \<open>db.value.execute\<close> statement;
  \<open>select_transactions\<close> is the assignment to \<open>transactions.value\<close>, which the
  mounted hook repeats; \<open>clear_form\<close> is the four assignments that end the block.
\<close>

definition ensure_directory ::
  "('fs, 'db) drivers \<Rightarrow> string \<Rightarrow> ('fs, 'db) app \<Rightarrow> (js_error \<times> ('fs, 'db) app) + ('fs, 'db) app" where
  "ensure_directory drv dir s =
     (case fs_exists drv Home dir (files s) of
        Inl e \<Rightarrow> Inl (e, s)
      | Inr dirExists \<Rightarrow>
          (let s1 = s\<lparr>console := console s @ [ConsoleLog [''Directory exists:'', bool_to_string dirExists]]\<rparr>
           in if \<not> dirExists
              then (let s2 = s1\<lparr>console := console s1 @ [ConsoleLog [''Creating directory:'', dir]]\<rparr>
                    in case fs_mkdir drv Home True dir (files s2) of
                         Inl e \<Rightarrow> Inl (e, s2)
                       | Inr f \<Rightarrow> Inr (s2\<lparr>files := f\<rparr>))
              else Inr s1))"

definition write_entry ::
  "('fs, 'db) drivers \<Rightarrow> string \<Rightarrow> string \<Rightarrow> ('fs, 'db) app \<Rightarrow> (js_error \<times> ('fs, 'db) app) + ('fs, 'db) app" where
  "write_entry drv fullPath content s =
     (case fs_writeTextFile drv Home fullPath content (files s) of
        Inl e \<Rightarrow> Inl (e, s)
      | Inr f \<Rightarrow> Inr (s\<lparr>files := f, console := console s @ [ConsoleLog [''Saved ladger entry to'', fullPath]]\<rparr>))"

text \<open>
  \<open>db.value.execute\<close> on a \<open>null\<close> ref throws before the argument list, and with it
  the second \<open>new Date()\<close>, is evaluated.
\<close>

definition insert_params :: "('fs, 'db) drivers \<Rightarrow> ('fs, 'db) app \<Rightarrow> js_value list" where
  "insert_params drv s =
     [JsString (debitor s), JsNumber (debit s), JsNumber (credit s), JsString (creditor s),
      JsString (date_now drv (clock s))]"

definition insert_transaction ::
  "('fs, 'db) drivers \<Rightarrow> ('fs, 'db) app \<Rightarrow> (js_error \<times> ('fs, 'db) app) + ('fs, 'db) app" where
  "insert_transaction drv s =
     (case db s of
        None \<Rightarrow> Inl (TypeError, s)
      | Some handle \<Rightarrow>
          (let params = insert_params drv s;
               s1 = s\<lparr>clock := clock s + 1\<rparr>
           in case db_execute drv handle insert_sql params (store s1) of
                Inl e \<Rightarrow> Inl (e, s1)
              | Inr d \<Rightarrow> Inr (s1\<lparr>store := d\<rparr>)))"

definition select_transactions ::
  "('fs, 'db) drivers \<Rightarrow> ('fs, 'db) app \<Rightarrow> (js_error \<times> ('fs, 'db) app) + ('fs, 'db) app" where
  "select_transactions drv s =
     (case db s of
        None \<Rightarrow> Inl (TypeError, s)
      | Some handle \<Rightarrow>
          (case db_select drv handle select_sql [] (store s) of
             Inl e \<Rightarrow> Inl (e, s)
           | Inr rows \<Rightarrow> Inr (s\<lparr>transactions := rows\<rparr>)))"

definition clear_form :: "('fs, 'db) app \<Rightarrow> ('fs, 'db) app" where
  "clear_form s = s\<lparr>debitor := [], debit := 0, credit := 0, creditor := []\<rparr>"

text \<open>
  From the first \<open>new Date()\<close> to the log line after \<open>writeTextFile\<close>: the archive
  half of the \<open>try\<close> block, which both views share up to the directory name.
\<close>

definition archive_entry ::
  "('fs, 'db) drivers \<Rightarrow> string \<Rightarrow> string \<Rightarrow> ('fs, 'db) app \<Rightarrow> (js_error \<times> ('fs, 'db) app) + ('fs, 'db) app" where
  "archive_entry drv dir content s =
     (let timestamp = replace_colon_dot (date_now drv (clock s));
          s0 = s\<lparr>clock := clock s + 1\<rparr>;
          filename = entry_filename timestamp;
          fullPath = entry_fullPath dir filename
      in case ensure_directory drv dir s0 of
           Inl x \<Rightarrow> Inl x
         | Inr s1 \<Rightarrow> write_entry drv fullPath content s1)"

definition saveToLadger_try ::
  "('fs, 'db) drivers \<Rightarrow> string \<Rightarrow> ('fs, 'db) app \<Rightarrow> (js_error \<times> ('fs, 'db) app) + ('fs, 'db) app" where
  "saveToLadger_try drv content s =
     (case archive_entry drv dirPath content s of
        Inl x \<Rightarrow> Inl x
      | Inr s2 \<Rightarrow>
          (case insert_transaction drv s2 of
             Inl x \<Rightarrow> Inl x
           | Inr s3 \<Rightarrow>
               (case select_transactions drv s3 of
                  Inl x \<Rightarrow> Inl x
                | Inr s4 \<Rightarrow> Inr (clear_form s4))))"

text \<open>
  The whole function: \<open>Inl\<close> would be an exception reaching the caller, \<open>Inr\<close> is
  the state after the returned promise has resolved. The \<open>catch\<close> clause logs whatever
  was thrown and falls through.
\<close>

definition saveToLadger :: "('fs, 'db) drivers \<Rightarrow> ('fs, 'db) app \<Rightarrow> js_error + ('fs, 'db) app" where
  "saveToLadger drv s =
     (let content = entry_content s
      in case saveToLadger_try drv content s of
           Inl (error, s') \<Rightarrow> Inr (s'\<lparr>console := console s' @ [ConsoleError ''Error saving ladger entry:'' error]\<rparr>)
         | Inr s' \<Rightarrow> Inr s')"


section \<open>The archive-only view (src/views/AppHome.vue)\<close>





section \<open>The migration registry: all_migrations\<close>

datatype MigrationKind = Up | Down

record Migration =
  version :: int
  description :: string
  sql :: string
  kind :: MigrationKind

datatype panic = Panic string

definition m20250115_000001_create_users_VERSION :: int where
  "m20250115_000001_create_users_VERSION = 20250115000001"

definition m20250115_000001_create_users_DESCRIPTION :: string where
  "m20250115_000001_create_users_DESCRIPTION = ''create users table''"

definition m20250115_000001_create_users_SQL :: string where
  "m20250115_000001_create_users_SQL =
     newline
     @ ''CREATE TABLE IF NOT EXISTS users ('' @ newline
     @ ''    id INTEGER PRIMARY KEY AUTOINCREMENT,'' @ newline
     @ newline
     @ ''    -- Email as unique identifier (even for single-user, useful for exports/syncs)'' @ newline
     @ ''    email TEXT UNIQUE,'' @ newline
     @ ''    display_name TEXT,'' @ newline
     @ newline
     @ ''    -- User preferences stored as JSON'' @ newline
     @ ''    -- WHY JSON? Flexible for future settings without schema changes'' @ newline
     @ ''    preferences TEXT DEFAULT '' @ [CHR 0x27] @ ''{}'' @ [CHR 0x27] @ '','' @ newline
     @ newline
     @ ''    -- Audit columns (see helpers.rs for explanation)'' @ newline
     @ ''    created_at TEXT NOT NULL DEFAULT (datetime('' @ [CHR 0x27] @ ''now'' @ [CHR 0x27] @ '')),'' @ newline
     @ ''    updated_at TEXT NOT NULL DEFAULT (datetime('' @ [CHR 0x27] @ ''now'' @ [CHR 0x27] @ ''))'' @ newline
     @ '');'' @ newline
     @ newline
     @ ''-- Index for email lookups (even though UNIQUE creates one, being explicit is clearer)'' @ newline
     @ ''CREATE INDEX IF NOT EXISTS idx_users_email ON users(email);'' @ newline"

definition m20250115_000001_create_users_migration :: Migration where
  "m20250115_000001_create_users_migration =
     \<lparr>version = m20250115_000001_create_users_VERSION,
      description = m20250115_000001_create_users_DESCRIPTION,
      sql = m20250115_000001_create_users_SQL,
      kind = Up\<rparr>"

text \<open>
  The loop of the \<open>#[cfg(debug_assertions)]\<close> block: \<open>seen.insert\<close> answers false for a
  version already in the set, and the \<open>assert!\<close> then panics with the formatted message.
\<close>

definition duplicate_message :: "Migration \<Rightarrow> string" where
  "duplicate_message m =
     ''Duplicate migration version: '' @ number_to_string (version m)
     @ '' ('' @ description m @ '')''"

fun assert_unique :: "int set \<Rightarrow> Migration list \<Rightarrow> panic + unit" where
  "assert_unique seen [] = Inr ()"
| "assert_unique seen (m # ms) =
     (if version m \<in> seen then Inl (Panic (duplicate_message m))
      else assert_unique (insert (version m) seen) ms)"

text \<open>
  \<open>all_migrations\<close> with the \<open>vec!\<close> literal and the build configuration as parameters;
  \<open>sort_by_key\<close> is a stable sort, as \<open>sort_key\<close> is.
\<close>

definition all_migrations_of :: "bool \<Rightarrow> Migration list \<Rightarrow> panic + Migration list" where
  "all_migrations_of debug_assertions registered =
     (let migrations = sort_key version registered
      in if debug_assertions
         then (case assert_unique {} migrations of
                 Inl p \<Rightarrow> Inl p
               | Inr _ \<Rightarrow> Inr migrations)
         else Inr migrations)"

definition all_migrations :: "bool \<Rightarrow> panic + Migration list" where
  "all_migrations debug_assertions =
     all_migrations_of debug_assertions [m20250115_000001_create_users_migration]"

text \<open>
  Two descriptors for running the registry: a second one that reuses the version of the
  users migration, and a descriptor with a version of one's choice.
\<close>

definition create_users_again :: Migration where
  "create_users_again =
     \<lparr>version = 20250115000001, description = ''create users table again'',
      sql = ''CREATE TABLE users (id INTEGER);'', kind = Up\<rparr>"

definition versioned :: "int \<Rightarrow> Migration" where
  "versioned v = \<lparr>version = v, description = ''step'', sql = '''', kind = Up\<rparr>"

section \<open>In-memory collaborators\<close>

text \<open>
  One concrete choice of the parameters, used to run the model: a file store that records
  directories and written files, a table held as a list in rowid order, a clock that
  advances by one millisecond per reading, and a switch per call that makes it throw.
  \<open>scan\<close> is the order in which the table answers a select without ORDER BY.
\<close>

record memory_files =
  mem_dirs :: "(BaseDirectory \<times> string) list"
  mem_files :: "(BaseDirectory \<times> string \<times> string) list"

record faults =
  exists_throws :: bool
  mkdir_throws :: bool
  write_throws :: bool
  load_throws :: bool
  execute_throws :: bool
  select_throws :: bool

definition no_faults :: faults where
  "no_faults = \<lparr>exists_throws = False, mkdir_throws = False, write_throws = False,
                load_throws = False, execute_throws = False, select_throws = False\<rparr>"

fun bind_row :: "nat \<Rightarrow> js_value list \<Rightarrow> transaction option" where
  "bind_row n [JsString a, JsNumber b, JsNumber c, JsString d, JsString t] =
     Some \<lparr>row_id = n, row_debitor = a, row_debit = b, row_credit = c, row_creditor = d,
           row_timestamp = t\<rparr>"
| "bind_row n ps = None"

definition memory_clock :: "nat \<Rightarrow> string" where
  "memory_clock n = ''2025-01-15T10:30:00.00'' @ digits n @ ''Z''"

definition memory_drivers ::
  "faults \<Rightarrow> (transaction list \<Rightarrow> transaction list) \<Rightarrow> (memory_files, transaction list) drivers" where
  "memory_drivers flt scan =
     \<lparr>fs_exists = (\<lambda>base path f.
        if exists_throws flt then Inl (Rejected ''exists'')
        else Inr ((base, path) \<in> set (mem_dirs f))),
      fs_mkdir = (\<lambda>base recursive path f.
        if mkdir_throws flt then Inl (Rejected ''mkdir'')
        else Inr (f\<lparr>mem_dirs := mem_dirs f @ [(base, path)]\<rparr>)),
      fs_writeTextFile = (\<lambda>base path content f.
        if write_throws flt then Inl (Rejected ''writeTextFile'')
        else Inr (f\<lparr>mem_files := mem_files f @ [(base, path, content)]\<rparr>)),
      db_load = (\<lambda>path d. if load_throws flt then Inl (Rejected ''load'') else Inr d),
      db_execute = (\<lambda>handle query params d.
        if execute_throws flt then Inl (Rejected ''execute'')
        else (case bind_row (Suc (length d)) params of
                None \<Rightarrow> Inl (Rejected ''bind'')
              | Some r \<Rightarrow> Inr (d @ [r]))),
      db_select = (\<lambda>handle query params d.
        if select_throws flt then Inl (Rejected ''select'') else Inr (scan d)),
      date_now = memory_clock\<rparr>"

definition alice_and_bob :: "(memory_files, transaction list) app" where
  "alice_and_bob =
     \<lparr>debitor = ''Alice'', debit = 0, credit = 0, creditor = ''Bob'',
      db = Some ''sqlite:aurelio.db'', transactions = [],
      files = \<lparr>mem_dirs = [], mem_files = []\<rparr>, store = [], clock = 0, console = []\<rparr>"

definition alice_pays_bob :: "int \<Rightarrow> (memory_files, transaction list) app" where
  "alice_pays_bob m = updateDebitCreditValues m alice_and_bob"


section \<open>What each step of the dual write leaves alone\<close>

lemmas ledger_defs = saveToLadger_try_def archive_entry_def ensure_directory_def
  write_entry_def insert_transaction_def insert_params_def select_transactions_def clear_form_def

lemma ensure_directory_keeps:
  "ensure_directory drv dir s = Inr s1 \<Longrightarrow>
     store s1 = store s \<and> transactions s1 = transactions s \<and> db s1 = db s \<and> clock s1 = clock s
     \<and> debitor s1 = debitor s \<and> debit s1 = debit s \<and> credit s1 = credit s \<and> creditor s1 = creditor s"
  by (auto simp: ensure_directory_def Let_def split: sum.splits if_splits)

lemma ensure_directory_throws_keeps:
  "ensure_directory drv dir s = Inl (e, s1) \<Longrightarrow>
     store s1 = store s \<and> transactions s1 = transactions s \<and> db s1 = db s \<and> clock s1 = clock s
     \<and> debitor s1 = debitor s \<and> debit s1 = debit s \<and> credit s1 = credit s \<and> creditor s1 = creditor s"
  by (auto simp: ensure_directory_def Let_def split: sum.splits if_splits)

lemma archive_entry_keeps:
  "archive_entry drv dir c s = Inr s1 \<Longrightarrow>
     store s1 = store s \<and> transactions s1 = transactions s \<and> db s1 = db s \<and> clock s1 = clock s + 1
     \<and> debitor s1 = debitor s \<and> debit s1 = debit s \<and> credit s1 = credit s \<and> creditor s1 = creditor s"
  by (auto simp: archive_entry_def write_entry_def Let_def split: sum.splits dest: ensure_directory_keeps)

lemma archive_entry_throws_keeps:
  "archive_entry drv dir c s = Inl (e, s1) \<Longrightarrow>
     store s1 = store s \<and> transactions s1 = transactions s \<and> db s1 = db s \<and> clock s1 = clock s + 1
     \<and> debitor s1 = debitor s \<and> debit s1 = debit s \<and> credit s1 = credit s \<and> creditor s1 = creditor s"
  by (auto simp: archive_entry_def write_entry_def Let_def split: sum.splits
      dest: ensure_directory_keeps ensure_directory_throws_keeps)

lemma insert_transaction_throws_keeps:
  "insert_transaction drv s = Inl (e, s1) \<Longrightarrow>
     store s1 = store s \<and> transactions s1 = transactions s \<and> files s1 = files s
     \<and> debitor s1 = debitor s \<and> debit s1 = debit s \<and> credit s1 = credit s \<and> creditor s1 = creditor s"
  by (auto simp: insert_transaction_def Let_def split: sum.splits option.splits)

lemma insert_transaction_keeps:
  "insert_transaction drv s = Inr s1 \<Longrightarrow>
     transactions s1 = transactions s \<and> files s1 = files s \<and> db s1 = db s \<and> clock s1 = clock s + 1
     \<and> debitor s1 = debitor s \<and> debit s1 = debit s \<and> credit s1 = credit s \<and> creditor s1 = creditor s"
  by (auto simp: insert_transaction_def Let_def split: sum.splits option.splits)

lemma select_transactions_throws_keeps:
  "select_transactions drv s = Inl (e, s1) \<Longrightarrow> s1 = s"
  by (auto simp: select_transactions_def split: sum.splits option.splits)

lemma select_transactions_keeps:
  "select_transactions drv s = Inr s1 \<Longrightarrow>
     store s1 = store s \<and> files s1 = files s \<and> db s1 = db s \<and> clock s1 = clock s
     \<and> debitor s1 = debitor s \<and> debit s1 = debit s \<and> credit s1 = credit s \<and> creditor s1 = creditor s"
  by (auto simp: select_transactions_def split: sum.splits option.splits)

lemma saveToLadger_returns: "\<exists>s'. saveToLadger drv s = Inr s'"
  by (simp add: saveToLadger_def Let_def split: sum.splits prod.splits)

lemma saveToLadger_caught:
  "saveToLadger_try drv (entry_content s) s = Inl (e, s1) \<Longrightarrow>
   saveToLadger drv s = Inr (s1\<lparr>console := console s1 @ [ConsoleError ''Error saving ladger entry:'' e]\<rparr>)"
  by (simp add: saveToLadger_def Let_def)

lemma saveToLadger_try_throws_keeps:
  "saveToLadger_try drv c s = Inl (e, s1) \<Longrightarrow>
     debitor s1 = debitor s \<and> debit s1 = debit s \<and> credit s1 = credit s \<and> creditor s1 = creditor s
     \<and> transactions s1 = transactions s"
  apply (simp add: saveToLadger_try_def split: sum.splits)
  apply (auto dest!: archive_entry_throws_keeps archive_entry_keeps insert_transaction_keeps insert_transaction_throws_keeps select_transactions_throws_keeps)
  done

lemma archive_entry_written:
  "archive_entry drv dir c s = Inr s2 \<Longrightarrow>
   \<exists>f. fs_writeTextFile drv Home
         (entry_fullPath dir (entry_filename (replace_colon_dot (date_now drv (clock s))))) c f
        = Inr (files s2)"
  by (fastforce simp: archive_entry_def write_entry_def Let_def split: sum.splits)






text \<open>The definitions to unfold when the model is run on the in-memory collaborators.\<close>

lemmas memory_defs = memory_drivers_def no_faults_def memory_clock_def alice_pays_bob_def
  alice_and_bob_def updateDebitCreditValues_def number_to_string_def bool_to_string_def
  dirPath_def entry_content_def entry_filename_def entry_fullPath_def replace_colon_dot_def
  newline_def digits.simps digit_char_def

section \<open>Properties of the ledger view\<close>



text \<open>
  C2. When the archive half of \<open>saveToLadger\<close> throws (the directory check, the
  directory creation or \<open>writeTextFile\<close>), the call ends with the database and the
  read model as they were; in particular so when \<open>writeTextFile\<close> itself throws after
  the directory step went through. Conversely a call that changes the database has had
  its archival write resolve, and the file store it ends with is the one that write
  produced.
\<close>

theorem saveToLadger_archive_failure:
  "(archive_entry drv dirPath (entry_content s) s = Inl (e, s1) \<longrightarrow>
      (\<exists>s'. saveToLadger drv s = Inr s' \<and> store s' = store s \<and> transactions s' = transactions s))
   \<and> (ensure_directory drv dirPath (s\<lparr>clock := clock s + 1\<rparr>) = Inr s0
        \<and> fs_writeTextFile drv Home
             (entry_fullPath dirPath (entry_filename (replace_colon_dot (date_now drv (clock s)))))
             (entry_content s) (files s0) = Inl e \<longrightarrow>
      (\<exists>s'. saveToLadger drv s = Inr s' \<and> store s' = store s \<and> transactions s' = transactions s))
   \<and> (saveToLadger drv s = Inr s' \<and> store s' \<noteq> store s \<longrightarrow>
      (\<exists>f. fs_writeTextFile drv Home
             (entry_fullPath dirPath (entry_filename (replace_colon_dot (date_now drv (clock s)))))
             (entry_content s) f = Inr (files s')))"
proof (intro conjI impI)
  assume a: "archive_entry drv dirPath (entry_content s) s = Inl (e, s1)"
  then have "saveToLadger_try drv (entry_content s) s = Inl (e, s1)"
    by (simp add: saveToLadger_try_def)
  from saveToLadger_caught [OF this] archive_entry_throws_keeps [OF a]
  show "\<exists>s'. saveToLadger drv s = Inr s' \<and> store s' = store s \<and> transactions s' = transactions s"
    by simp
next
  assume w: "ensure_directory drv dirPath (s\<lparr>clock := clock s + 1\<rparr>) = Inr s0
        \<and> fs_writeTextFile drv Home
             (entry_fullPath dirPath (entry_filename (replace_colon_dot (date_now drv (clock s)))))
             (entry_content s) (files s0) = Inl e"
  then have a: "archive_entry drv dirPath (entry_content s) s = Inl (e, s0)"
    by (simp add: archive_entry_def write_entry_def Let_def)
  then have "saveToLadger_try drv (entry_content s) s = Inl (e, s0)"
    by (simp add: saveToLadger_try_def)
  from saveToLadger_caught [OF this] archive_entry_throws_keeps [OF a]
  show "\<exists>s'. saveToLadger drv s = Inr s' \<and> store s' = store s \<and> transactions s' = transactions s"
    by simp
next
  assume c: "saveToLadger drv s = Inr s' \<and> store s' \<noteq> store s"
  show "\<exists>f. fs_writeTextFile drv Home
             (entry_fullPath dirPath (entry_filename (replace_colon_dot (date_now drv (clock s)))))
             (entry_content s) f = Inr (files s')"
  proof (cases "archive_entry drv dirPath (entry_content s) s")
    case (Inl x)
    obtain e1 s1 where x: "x = (e1, s1)" by (cases x)
    have "saveToLadger_try drv (entry_content s) s = Inl (e1, s1)"
      using Inl x by (simp add: saveToLadger_try_def)
    from saveToLadger_caught [OF this] archive_entry_throws_keeps [of drv dirPath "entry_content s" s e1 s1] Inl x c
    show ?thesis by auto
  next
    case (Inr s2)
    from archive_entry_written [OF Inr] obtain f where w: "fs_writeTextFile drv Home
             (entry_fullPath dirPath (entry_filename (replace_colon_dot (date_now drv (clock s)))))
             (entry_content s) f = Inr (files s2)"
      by blast
    have "files s' = files s2"
      using c Inr
      by (auto simp: saveToLadger_def saveToLadger_try_def Let_def clear_form_def
          split: sum.splits prod.splits
          dest!: insert_transaction_keeps insert_transaction_throws_keeps
                 select_transactions_throws_keeps select_transactions_keeps)
    with w show ?thesis by auto
  qed
qed

theorem saveToLadger_archive_failure_witness:
  "(\<exists>s'. saveToLadger (memory_drivers (no_faults\<lparr>write_throws := True\<rparr>) id) (alice_pays_bob 5000) = Inr s'
        \<and> store s' = [] \<and> transactions s' = [])
   \<and> (\<exists>s' f. saveToLadger (memory_drivers no_faults id) (alice_pays_bob 5000) = Inr s'
        \<and> store s' \<noteq> []
        \<and> fs_writeTextFile (memory_drivers no_faults id) Home
             ''Vault/Finance/Transactions/ladger-entry-2025-01-15T10-30-00-000Z.md''
             (entry_content (alice_pays_bob 5000)) f = Inr (files s'))"
proof -
  let ?bad = "memory_drivers (no_faults\<lparr>write_throws := True\<rparr>) id"
  let ?ok = "memory_drivers no_faults id"
  let ?s = "alice_pays_bob 5000"
  have "\<exists>e s1. archive_entry ?bad dirPath (entry_content ?s) ?s = Inl (e, s1)"
    by (simp add: ledger_defs memory_defs Let_def)
  then obtain e s1 where "archive_entry ?bad dirPath (entry_content ?s) ?s = Inl (e, s1)"
    by blast
  with saveToLadger_archive_failure [of ?bad ?s e s1]
  have 1: "\<exists>s'. saveToLadger ?bad ?s = Inr s' \<and> store s' = [] \<and> transactions s' = []"
    by (simp add: alice_pays_bob_def alice_and_bob_def updateDebitCreditValues_def Let_def)
  obtain s' where s': "saveToLadger ?ok ?s = Inr s'"
    using saveToLadger_returns by blast
  then have "store s' \<noteq> store ?s"
    by (auto simp add: saveToLadger_def ledger_defs memory_defs Let_def)
  with s' saveToLadger_archive_failure [of ?ok ?s _ _ _ s']
  have "\<exists>f. fs_writeTextFile ?ok Home
             (entry_fullPath dirPath (entry_filename (replace_colon_dot (date_now ?ok (clock ?s)))))
             (entry_content ?s) f = Inr (files s')"
    by blast
  moreover have "entry_fullPath dirPath (entry_filename (replace_colon_dot (date_now ?ok (clock ?s))))
      = ''Vault/Finance/Transactions/ladger-entry-2025-01-15T10-30-00-000Z.md''"
    by (simp add: memory_defs)
  moreover have "store s' \<noteq> []"
    using \<open>store s' \<noteq> store ?s\<close> by (simp add: alice_pays_bob_def alice_and_bob_def updateDebitCreditValues_def Let_def)
  ultimately show ?thesis using 1 s' by auto
qed

text \<open>
  C10. \<open>saveToLadger\<close> always returns normally. When a step of its \<open>try\<close> block throws
  (the directory check or creation, the archival write, the database insert, or the
  refresh of the read model), the four form fields keep the values they had at the call;
  when every step goes through they are reset to the empty string and zero.
\<close>

theorem saveToLadger_never_throws:
  "(\<exists>s'. saveToLadger drv s = Inr s')
   \<and> ((\<exists>x. ensure_directory drv dirPath (s\<lparr>clock := clock s + 1\<rparr>) = Inl x)
        \<or> (\<exists>s1 x. ensure_directory drv dirPath (s\<lparr>clock := clock s + 1\<rparr>) = Inr s1
              \<and> write_entry drv
                   (entry_fullPath dirPath (entry_filename (replace_colon_dot (date_now drv (clock s)))))
                   (entry_content s) s1 = Inl x)
        \<or> (\<exists>s2 x. archive_entry drv dirPath (entry_content s) s = Inr s2
              \<and> insert_transaction drv s2 = Inl x)
        \<or> (\<exists>s2 s3 x. archive_entry drv dirPath (entry_content s) s = Inr s2
              \<and> insert_transaction drv s2 = Inr s3 \<and> select_transactions drv s3 = Inl x)
       \<longrightarrow> (\<exists>s'. saveToLadger drv s = Inr s' \<and> debitor s' = debitor s \<and> debit s' = debit s
                  \<and> credit s' = credit s \<and> creditor s' = creditor s))
   \<and> ((\<exists>s2 s3 s4. archive_entry drv dirPath (entry_content s) s = Inr s2
              \<and> insert_transaction drv s2 = Inr s3 \<and> select_transactions drv s3 = Inr s4)
       \<longrightarrow> (\<exists>s'. saveToLadger drv s = Inr s' \<and> debitor s' = [] \<and> debit s' = 0
                  \<and> credit s' = 0 \<and> creditor s' = []))"
proof (intro conjI impI)
  show "\<exists>s'. saveToLadger drv s = Inr s'" by (rule saveToLadger_returns)
next
  assume "(\<exists>x. ensure_directory drv dirPath (s\<lparr>clock := clock s + 1\<rparr>) = Inl x)
        \<or> (\<exists>s1 x. ensure_directory drv dirPath (s\<lparr>clock := clock s + 1\<rparr>) = Inr s1
              \<and> write_entry drv
                   (entry_fullPath dirPath (entry_filename (replace_colon_dot (date_now drv (clock s)))))
                   (entry_content s) s1 = Inl x)
        \<or> (\<exists>s2 x. archive_entry drv dirPath (entry_content s) s = Inr s2
              \<and> insert_transaction drv s2 = Inl x)
        \<or> (\<exists>s2 s3 x. archive_entry drv dirPath (entry_content s) s = Inr s2
              \<and> insert_transaction drv s2 = Inr s3 \<and> select_transactions drv s3 = Inl x)"
  then have "\<exists>x. saveToLadger_try drv (entry_content s) s = Inl x"
    by (auto simp: saveToLadger_try_def archive_entry_def Let_def)
  then obtain e s1 where t: "saveToLadger_try drv (entry_content s) s = Inl (e, s1)"
    by auto
  from saveToLadger_caught [OF t] saveToLadger_try_throws_keeps [OF t]
  show "\<exists>s'. saveToLadger drv s = Inr s' \<and> debitor s' = debitor s \<and> debit s' = debit s
                  \<and> credit s' = credit s \<and> creditor s' = creditor s"
    by simp
next
  assume "\<exists>s2 s3 s4. archive_entry drv dirPath (entry_content s) s = Inr s2
              \<and> insert_transaction drv s2 = Inr s3 \<and> select_transactions drv s3 = Inr s4"
  then show "\<exists>s'. saveToLadger drv s = Inr s' \<and> debitor s' = [] \<and> debit s' = 0
                  \<and> credit s' = 0 \<and> creditor s' = []"
    by (auto simp: saveToLadger_def saveToLadger_try_def clear_form_def Let_def)
qed

theorem saveToLadger_never_throws_witness:
  "(\<exists>s'. saveToLadger (memory_drivers (no_faults\<lparr>execute_throws := True\<rparr>) id) (alice_pays_bob 5000) = Inr s'
        \<and> debitor s' = ''Alice'' \<and> debit s' = - 5000 \<and> credit s' = 5000 \<and> creditor s' = ''Bob'')
   \<and> (\<exists>s'. saveToLadger (memory_drivers no_faults id) (alice_pays_bob 5000) = Inr s'
        \<and> debitor s' = [] \<and> debit s' = 0 \<and> credit s' = 0 \<and> creditor s' = [])"
proof -
  let ?bad = "memory_drivers (no_faults\<lparr>execute_throws := True\<rparr>) id"
  let ?ok = "memory_drivers no_faults id"
  let ?s = "alice_pays_bob 5000"
  have "\<exists>s2 x. archive_entry ?bad dirPath (entry_content ?s) ?s = Inr s2
              \<and> insert_transaction ?bad s2 = Inl x"
    by (simp add: ledger_defs memory_defs Let_def)
  with saveToLadger_never_throws [of ?bad ?s]
  have "\<exists>s'. saveToLadger ?bad ?s = Inr s' \<and> debitor s' = debitor ?s \<and> debit s' = debit ?s
                  \<and> credit s' = credit ?s \<and> creditor s' = creditor ?s"
    by blast
  then have 1: "\<exists>s'. saveToLadger ?bad ?s = Inr s'
        \<and> debitor s' = ''Alice'' \<and> debit s' = - 5000 \<and> credit s' = 5000 \<and> creditor s' = ''Bob''"
    by (simp add: alice_pays_bob_def alice_and_bob_def updateDebitCreditValues_def Let_def)
  have "\<exists>s2 s3 s4. archive_entry ?ok dirPath (entry_content ?s) ?s = Inr s2
              \<and> insert_transaction ?ok s2 = Inr s3 \<and> select_transactions ?ok s3 = Inr s4"
    by (simp add: ledger_defs memory_defs Let_def)
  with saveToLadger_never_throws [of ?ok ?s]
  have "\<exists>s'. saveToLadger ?ok ?s = Inr s'
        \<and> debitor s' = [] \<and> debit s' = 0 \<and> credit s' = 0 \<and> creditor s' = []"
    by blast
  with 1 show ?thesis by blast
qed

















section \<open>Properties of the migration registry\<close>

lemma all_migrations_as_registered:
  "all_migrations debug_assertions = Inr [m20250115_000001_create_users_migration]"
  by (simp add: all_migrations_def all_migrations_of_def Let_def)

lemma assert_unique_passes:
  "assert_unique seen ms = Inr () \<longleftrightarrow> distinct (map version ms) \<and> set (map version ms) \<inter> seen = {}"
  by (induction ms arbitrary: seen) auto

lemma assert_unique_panics:
  "assert_unique seen ms = Inl p \<Longrightarrow>
     \<exists>pre m post. ms = pre @ m # post \<and> distinct (map version pre)
        \<and> set (map version pre) \<inter> seen = {}
        \<and> version m \<in> seen \<union> set (map version pre)
        \<and> p = Panic (duplicate_message m)"
proof (induction ms arbitrary: seen)
  case Nil
  then show ?case by simp
next
  case (Cons a ms)
  show ?case
  proof (cases "version a \<in> seen")
    case True
    with Cons.prems have "p = Panic (duplicate_message a)" by simp
    with True show ?thesis by (intro exI [of _ "[]"] exI [of _ a] exI [of _ ms]) simp
  next
    case False
    with Cons.prems have "assert_unique (insert (version a) seen) ms = Inl p" by simp
    from Cons.IH [OF this] obtain pre m post where
      "ms = pre @ m # post" "distinct (map version pre)"
      "set (map version pre) \<inter> insert (version a) seen = {}"
      "version m \<in> insert (version a) seen \<union> set (map version pre)"
      "p = Panic (duplicate_message m)" by blast
    with False show ?thesis
      by (intro exI [of _ "a # pre"] exI [of _ m] exI [of _ post]) auto
  qed
qed

lemma sort_key_distinct_versions:
  "distinct (map version ms) \<Longrightarrow> distinct (map version (sort_key version ms))"
  by (metis mset_eq_imp_distinct_iff mset_map mset_sort)

text \<open>
  C6. For descriptors with pairwise distinct versions \<open>all_migrations\<close> returns, in
  either build configuration, exactly the registered descriptors in strictly ascending
  order of version, and it returns this same sequence for every order in which the same
  descriptors are registered.
\<close>

theorem all_migrations_of_sorted:
  assumes "distinct (map version ms)"
  shows "\<exists>r. all_migrations_of debug_assertions ms = Inr r
           \<and> sorted_wrt (<) (map version r) \<and> mset r = mset ms
           \<and> (\<forall>ms'. mset ms' = mset ms \<longrightarrow> all_migrations_of debug_assertions ms' = Inr r)"
proof -
  let ?r = "sort_key version ms"
  have d: "distinct (map version ?r)" using assms by (rule sort_key_distinct_versions)
  then have u: "assert_unique {} ?r = Inr ()" by (simp add: assert_unique_passes)
  then have r: "all_migrations_of debug_assertions ms = Inr ?r"
    by (simp add: all_migrations_of_def Let_def)
  have s: "sorted_wrt (<) (map version ?r)"
    using d by (simp add: strict_sorted_iff)
  have "all_migrations_of debug_assertions ms' = Inr ?r" if p: "mset ms' = mset ms" for ms'
  proof -
    from p have "mset (map version ms') = mset (map version ms)" by simp
    with assms have "distinct (map version ms')" by (metis mset_eq_imp_distinct_iff)
    then have i: "inj_on version (set ms')" by (simp add: distinct_map)
    have "mset ms' = mset ?r" using p by simp
    moreover note i
    moreover have "sorted (map version ?r)" by simp
    ultimately have "sort_key version ms' = ?r" by (rule sort_key_inj_key_eq)
    with u show ?thesis by (simp add: all_migrations_of_def Let_def)
  qed
  with r s show ?thesis by simp
qed

theorem all_migrations_of_sorted_witness:
  "all_migrations_of True [versioned 20250201000001, versioned 20250115000001, versioned 20250115000002]
     = Inr [versioned 20250115000001, versioned 20250115000002, versioned 20250201000001]
   \<and> all_migrations_of True [versioned 20250115000002, versioned 20250201000001, versioned 20250115000001]
     = Inr [versioned 20250115000001, versioned 20250115000002, versioned 20250201000001]"
proof -
  let ?ms = "[versioned 20250201000001, versioned 20250115000001, versioned 20250115000002]"
  let ?ms' = "[versioned 20250115000002, versioned 20250201000001, versioned 20250115000001]"
  have "distinct (map version ?ms)" by (simp add: versioned_def)
  from all_migrations_of_sorted [OF this, of True] obtain r where
    r: "all_migrations_of True ?ms = Inr r"
    and p: "\<forall>ms'. mset ms' = mset ?ms \<longrightarrow> all_migrations_of True ms' = Inr r" by blast
  have "r = [versioned 20250115000001, versioned 20250115000002, versioned 20250201000001]"
    using r by (simp add: all_migrations_of_def versioned_def Let_def)
  moreover have "mset ?ms' = mset ?ms" by (simp add: versioned_def)
  ultimately show ?thesis using r p by blast
qed

text \<open>
  C3, as the specification words it, asks that two descriptors with one version make
  every finalize fail. The check sits in a \<open>#[cfg(debug_assertions)]\<close> block: built
  without debug assertions, \<open>all_migrations\<close> returns both descriptors.
\<close>

theorem all_migrations_release_duplicates_counterexample:
  "version m20250115_000001_create_users_migration = version create_users_again
   \<and> all_migrations_of False [m20250115_000001_create_users_migration, create_users_again]
       = Inr [m20250115_000001_create_users_migration, create_users_again]"
  by (simp add: all_migrations_of_def create_users_again_def m20250115_000001_create_users_migration_def
      m20250115_000001_create_users_VERSION_def Let_def)

text \<open>
  C3, amended. When two registered descriptors share a version, a build with debug
  assertions panics inside \<open>all_migrations\<close>, before any sequence is returned, with the
  message \<open>Duplicate migration version\<close> naming the first descriptor, in sorted order,
  whose version was already seen; a build without debug assertions performs no check and
  returns the sorted sequence with the duplicates in it.
\<close>

theorem duplicate_version_panics_in_debug_builds:
  assumes "\<not> distinct (map version ms)"
  shows "(\<exists>pre m post. sort_key version ms = pre @ m # post
            \<and> distinct (map version pre) \<and> version m \<in> set (map version pre)
            \<and> all_migrations_of True ms = Inl (Panic (duplicate_message m)))
         \<and> all_migrations_of False ms = Inr (sort_key version ms)"
proof -
  let ?r = "sort_key version ms"
  have "\<not> distinct (map version ?r)"
    using assms by (metis mset_eq_imp_distinct_iff mset_map mset_sort)
  then have "assert_unique {} ?r \<noteq> Inr ()" by (simp add: assert_unique_passes)
  then obtain p where p: "assert_unique {} ?r = Inl p" by (cases "assert_unique {} ?r") auto
  from assert_unique_panics [OF this] obtain pre m post where
    "?r = pre @ m # post" "distinct (map version pre)" "version m \<in> set (map version pre)"
    "p = Panic (duplicate_message m)" by auto
  moreover from p have "all_migrations_of True ms = Inl p"
    by (simp add: all_migrations_of_def Let_def)
  ultimately show ?thesis by (auto simp: all_migrations_of_def Let_def)
qed

theorem duplicate_version_panics_in_debug_builds_witness:
  "all_migrations_of True [m20250115_000001_create_users_migration, create_users_again]
     = Inl (Panic ''Duplicate migration version: 20250115000001 (create users table again)'')
   \<and> all_migrations_of False [m20250115_000001_create_users_migration, create_users_again]
     = Inr (sort_key version [m20250115_000001_create_users_migration, create_users_again])"
proof -
  let ?ms = "[m20250115_000001_create_users_migration, create_users_again]"
  have "\<not> distinct (map version ?ms)"
    by (simp add: create_users_again_def m20250115_000001_create_users_migration_def
        m20250115_000001_create_users_VERSION_def)
  from duplicate_version_panics_in_debug_builds [OF this]
  have "all_migrations_of False ?ms = Inr (sort_key version ?ms)" by blast
  moreover have "all_migrations_of True ?ms
     = Inl (Panic ''Duplicate migration version: 20250115000001 (create users table again)'')"
    by (simp add: all_migrations_of_def create_users_again_def m20250115_000001_create_users_migration_def
        m20250115_000001_create_users_VERSION_def Let_def duplicate_message_def number_to_string_def
        digits.simps digit_char_def)
  ultimately show ?thesis by blast
qed

end
